theory Spec2Isabelle
  imports Main "HOL-Library.Multiset"
begin

section \<open>JavaScript Date arithmetic\<close>

text \<open>
  A JavaScript \<open>Date\<close> holds a time value: the number of milliseconds since
  1970-01-01T00:00:00Z, an integer. The definitions of this section follow the
  ECMAScript abstract operations of the same names; \<open>div\<close> and \<open>mod\<close> on \<open>int\<close>
  round towards minus infinity, as ECMAScript's \<open>floor\<close> and \<open>modulo\<close> do.

  The accessors without \<open>UTC\<close> in their name (\<open>getMinutes\<close>, \<open>setMinutes\<close>,
  \<open>getHours\<close>, \<open>setHours\<close>, \<open>setSeconds\<close>, \<open>getDay\<close>) work on the local time of the
  host the server runs on. The host's offset from UTC is the parameter \<open>tza\<close>
  (milliseconds, positive east of Greenwich), taken as constant. Every time string
  is taken to parse to a valid time value, and time values stay inside the range
  a \<open>Date\<close> can hold.
\<close>

type_synonym instant = int

abbreviation msPerSecond :: int where "msPerSecond \<equiv> 1000"
abbreviation msPerMinute :: int where "msPerMinute \<equiv> 60000"
abbreviation msPerHour :: int where "msPerHour \<equiv> 3600000"
abbreviation msPerDay :: int where "msPerDay \<equiv> 86400000"

definition Day :: "instant \<Rightarrow> int" where
  "Day t = t div msPerDay"

definition HourFromTime :: "instant \<Rightarrow> int" where
  "HourFromTime t = (t div msPerHour) mod 24"

definition MinFromTime :: "instant \<Rightarrow> int" where
  "MinFromTime t = (t div msPerMinute) mod 60"

definition SecFromTime :: "instant \<Rightarrow> int" where
  "SecFromTime t = (t div msPerSecond) mod 60"

definition msFromTime :: "instant \<Rightarrow> int" where
  "msFromTime t = t mod msPerSecond"

definition WeekDay :: "instant \<Rightarrow> int" where
  "WeekDay t = (Day t + 4) mod 7"

definition MakeTime :: "int \<Rightarrow> int \<Rightarrow> int \<Rightarrow> int \<Rightarrow> int" where
  "MakeTime hour minute sec ms = hour * msPerHour + minute * msPerMinute + sec * msPerSecond + ms"

definition MakeDate :: "int \<Rightarrow> int \<Rightarrow> instant" where
  "MakeDate day time = day * msPerDay + time"

definition LocalTime :: "int \<Rightarrow> instant \<Rightarrow> int" where
  "LocalTime tza t = t + tza"

definition UTC :: "int \<Rightarrow> int \<Rightarrow> instant" where
  "UTC tza t = t - tza"

definition getMinutes :: "int \<Rightarrow> instant \<Rightarrow> int" where
  "getMinutes tza t = MinFromTime (LocalTime tza t)"

definition getHours :: "int \<Rightarrow> instant \<Rightarrow> int" where
  "getHours tza t = HourFromTime (LocalTime tza t)"

definition getDay :: "int \<Rightarrow> instant \<Rightarrow> int" where
  "getDay tza t = WeekDay (LocalTime tza t)"

definition getUTCDay :: "instant \<Rightarrow> int" where
  "getUTCDay t = WeekDay t"

definition getUTCHours :: "instant \<Rightarrow> int" where
  "getUTCHours t = HourFromTime t"

definition getUTCMinutes :: "instant \<Rightarrow> int" where
  "getUTCMinutes t = MinFromTime t"

definition setSeconds :: "int \<Rightarrow> instant \<Rightarrow> int \<Rightarrow> int \<Rightarrow> instant" where
  "setSeconds tza t sec ms =
     (let tl = LocalTime tza t
      in UTC tza (MakeDate (Day tl) (MakeTime (HourFromTime tl) (MinFromTime tl) sec ms)))"

definition setMinutes :: "int \<Rightarrow> instant \<Rightarrow> int \<Rightarrow> instant" where
  "setMinutes tza t minute =
     (let tl = LocalTime tza t
      in UTC tza (MakeDate (Day tl) (MakeTime (HourFromTime tl) minute (SecFromTime tl) (msFromTime tl))))"

definition setHours :: "int \<Rightarrow> instant \<Rightarrow> int \<Rightarrow> instant" where
  "setHours tza t hour =
     (let tl = LocalTime tza t
      in UTC tza (MakeDate (Day tl) (MakeTime hour (MinFromTime tl) (SecFromTime tl) (msFromTime tl))))"

text \<open>
  \<open>Date.UTC(year, month, date, hours, 0, 0)\<close>: \<open>month\<close> counts from 0, a month or
  a date out of range carries into the next unit, and a year from 0 to 99 stands
  for 1900 + year.
\<close>

definition DayFromYear :: "int \<Rightarrow> int" where
  "DayFromYear y = 365 * (y - 1970) + (y - 1969) div 4 - (y - 1901) div 100 + (y - 1601) div 400"

definition InLeapYear :: "int \<Rightarrow> bool" where
  "InLeapYear y = ((y mod 4 = 0 \<and> y mod 100 \<noteq> 0) \<or> y mod 400 = 0)"

definition DayWithinYear :: "bool \<Rightarrow> int \<Rightarrow> int" where
  "DayWithinYear leap mn =
     [0, 31, 59, 90, 120, 151, 181, 212, 243, 273, 304, 334] ! nat mn
       + (if leap \<and> 2 \<le> mn then 1 else 0)"

definition MakeDay :: "int \<Rightarrow> int \<Rightarrow> int \<Rightarrow> int" where
  "MakeDay year month date =
     (let ym = year + month div 12; mn = month mod 12
      in DayFromYear ym + DayWithinYear (InLeapYear ym) mn + date - 1)"

definition DateUTC :: "int \<Rightarrow> int \<Rightarrow> int \<Rightarrow> int \<Rightarrow> instant" where
  "DateUTC year month date hours =
     (let yr = (if 0 \<le> year \<and> year \<le> 99 then 1900 + year else year)
      in MakeDate (MakeDay yr month date) (MakeTime hours 0 0 0))"

text \<open>
  \<open>new Date(s + 'T12:00:00Z')\<close> and \<open>new Date(s + 'T00:00:00Z')\<close> for a date
  string \<open>s\<close> = YYYY-MM-DD of a calendar date with the fields \<open>year\<close>, \<open>month\<close>
  (1 to 12) and \<open>day\<close>: the given hour of that day in UTC.
\<close>

definition parseDateAt :: "int \<Rightarrow> int \<Rightarrow> int \<Rightarrow> int \<Rightarrow> instant" where
  "parseDateAt year month day hours = MakeDate (MakeDay year (month - 1) day) (MakeTime hours 0 0 0)"

text \<open>\<open>d.setUTCDate(d.getUTCDate() + k)\<close> moves \<open>d\<close> by \<open>k\<close> whole days.\<close>

definition addUTCDate :: "instant \<Rightarrow> int \<Rightarrow> instant" where
  "addUTCDate t k = t + k * msPerDay"

section \<open>Slots and events\<close>

record slot =
  slot_start :: instant
  slot_end :: instant
  isOverlapping :: bool
  isAdjacent :: bool

text \<open>
  An entry of \<open>processedEvents\<close>: \<open>start.dateTime\<close> and \<open>end.dateTime\<close> (absent
  is \<open>None\<close>) and the flag \<open>isSyntheticAllDay\<close> (absent is \<open>False\<close>).
\<close>

record processed_event =
  start_dateTime :: "instant option"
  end_dateTime :: "instant option"
  isSyntheticAllDay :: bool

text \<open>
  An event as the calendar lists it: an all-day event carries \<open>start.date\<close> and
  \<open>end.date\<close> (here parsed at midnight UTC), a timed event \<open>start.dateTime\<close> and
  \<open>end.dateTime\<close>, and anything else carries neither.
\<close>

datatype raw_event = AllDay instant instant | Timed instant instant | Untimed

section \<open>Rounding to the half hour\<close>

definition roundDown30 :: "int \<Rightarrow> instant \<Rightarrow> instant" where
  "roundDown30 tza date =
     (let rounded = setSeconds tza date 0 0;
          minutes = getMinutes tza rounded
      in if minutes \<ge> 30 then setMinutes tza rounded 30 else setMinutes tza rounded 0)"

definition roundUp30 :: "int \<Rightarrow> instant \<Rightarrow> instant" where
  "roundUp30 tza date =
     (let rounded = setSeconds tza date 0 0;
          minutes = getMinutes tza rounded
      in if minutes > 30 then
           (let rounded1 = setMinutes tza rounded 0
            in setHours tza rounded1 (getHours tza rounded1 + 1))
         else if minutes > 0 \<and> minutes \<le> 30 then setMinutes tza rounded 30
         else rounded)"

section \<open>The slot engine\<close>

text \<open>
  The tiling loop of \<open>calculateAdjacentSlots\<close> and \<open>calculateAllSlots\<close>:
  \<open>current\<close> starts at \<open>startOfBusinessDay\<close> and moves on by 30 minutes while it
  is before \<open>endOfBusinessDay\<close>; a slot is pushed when its end is not after
  \<open>endOfBusinessDay\<close>.
\<close>

function buildSlots :: "int \<Rightarrow> instant \<Rightarrow> instant \<Rightarrow> slot list" where
  "buildSlots tza current endOfBusinessDay =
     (if current < endOfBusinessDay then
        (let slotStart = current;
             slotEnd = setMinutes tza current (getMinutes tza current + 30)
         in (if slotEnd \<le> endOfBusinessDay
             then [\<lparr>slot_start = slotStart, slot_end = slotEnd,
                    isOverlapping = False, isAdjacent = False\<rparr>]
             else [])
            @ buildSlots tza (setMinutes tza current (getMinutes tza current + 30)) endOfBusinessDay)
      else [])"
  by pat_completeness auto
termination
proof (relation "measure (\<lambda>(tza, current, e). nat (e - current))")
  show "wf (measure (\<lambda>(tza, current, e). nat (e - current)))"
    by simp
next
  fix tza current endOfBusinessDay :: int
  assume less: "current < endOfBusinessDay"
  define tl where "tl = current + tza"
  have a: "tl = (tl div 1000) * 1000 + tl mod 1000" by simp
  have b: "tl div 1000 = (tl div 60000) * 60 + (tl div 1000) mod 60"
    using div_mult_mod_eq [of "tl div 1000" 60] by (simp add: zdiv_zmult2_eq [symmetric])
  have c: "tl div 60000 = (tl div 3600000) * 60 + (tl div 60000) mod 60"
    using div_mult_mod_eq [of "tl div 60000" 60] by (simp add: zdiv_zmult2_eq [symmetric])
  have d: "tl div 3600000 = (tl div 86400000) * 24 + (tl div 3600000) mod 24"
    using div_mult_mod_eq [of "tl div 3600000" 24] by (simp add: zdiv_zmult2_eq [symmetric])
  have comb: "x = q1 * 1000 + r1 \<Longrightarrow> q1 = q2 * 60 + r2 \<Longrightarrow> q2 = q3 * 60 + r3
      \<Longrightarrow> q3 = q4 * 24 + r4
      \<Longrightarrow> q4 * 86400000 + r4 * 3600000 + r3 * 60000 + r2 * 1000 + r1 = x"
    for x q1 q2 q3 q4 r1 r2 r3 r4 :: int
    by simp
  have fields: "(tl div 86400000) * 86400000 + ((tl div 3600000) mod 24) * 3600000
      + ((tl div 60000) mod 60) * 60000 + ((tl div 1000) mod 60) * 1000 + tl mod 1000 = tl"
    by (rule comb [OF a b c d])
  have shift: "D + H + M * 60000 + S + r = x
      \<Longrightarrow> D + H + (M + 30) * 60000 + S + r - tza = x + 1800000 - tza"
    for D H M S r x :: int
    by (simp add: algebra_simps)
  have "setMinutes tza current (getMinutes tza current + 30)
        = (tl div 86400000) * 86400000 + ((tl div 3600000) mod 24) * 3600000
          + ((tl div 60000) mod 60 + 30) * 60000 + ((tl div 1000) mod 60) * 1000 + tl mod 1000 - tza"
    unfolding setMinutes_def getMinutes_def Let_def UTC_def LocalTime_def MakeDate_def
      MakeTime_def Day_def HourFromTime_def MinFromTime_def SecFromTime_def msFromTime_def
      tl_def [symmetric]
    by (simp only: add.assoc)
  also have "\<dots> = tl + 1800000 - tza"
    by (rule shift [OF fields])
  finally have "setMinutes tza current (getMinutes tza current + 30) = current + 1800000"
    by (simp add: tl_def)
  with less show "((tza, setMinutes tza current (getMinutes tza current + 30), endOfBusinessDay),
                   (tza, current, endOfBusinessDay))
                  \<in> measure (\<lambda>(tza, current, e). nat (e - current))"
    by simp
qed

declare buildSlots.simps [simp del]

text \<open>
  The body of the inner loop \<open>for (const slot of slots)\<close> of
  \<open>calculateAdjacentSlots\<close>, for one event and one slot. The flags the source
  writes into the slot object are the fields of the slot returned.
\<close>

definition markSlot :: "instant \<Rightarrow> instant \<Rightarrow> bool \<Rightarrow> instant \<Rightarrow> instant \<Rightarrow> slot \<Rightarrow> slot" where
  "markSlot eventStart eventEnd isAllDayBlock effectiveStartRoundedDown effectiveEndRoundedUp slot =
     (if isOverlapping slot then slot
      else if slot_start slot < eventEnd \<and> slot_end slot > eventStart
        then slot\<lparr>isOverlapping := True\<rparr>
      else if \<not> isAllDayBlock then
        (let endsBeforeEventStarts = (slot_end slot = effectiveStartRoundedDown);
             startsAfterEventEnds = (slot_start slot = effectiveEndRoundedUp)
         in if endsBeforeEventStarts \<or> startsAfterEventEnds then
              (if \<not> (slot_start slot < eventEnd \<and> slot_end slot > eventStart)
               then slot\<lparr>isAdjacent := True\<rparr> else slot)
            else slot)
      else slot)"

text \<open>
  The body of the outer loop \<open>for (const event of processedEvents)\<close>: an event
  without \<open>start.dateTime\<close> or \<open>end.dateTime\<close> is skipped.
\<close>

definition markEvent :: "int \<Rightarrow> slot list \<Rightarrow> processed_event \<Rightarrow> slot list" where
  "markEvent tza slots event =
     (case (start_dateTime event, end_dateTime event) of
        (Some eventStart, Some eventEnd) \<Rightarrow>
          (let isAllDayBlock = isSyntheticAllDay event;
               effectiveStartRoundedDown = roundDown30 tza eventStart;
               effectiveEndRoundedUp = roundUp30 tza eventEnd
           in map (markSlot eventStart eventEnd isAllDayBlock
                     effectiveStartRoundedDown effectiveEndRoundedUp) slots)
      | _ \<Rightarrow> slots)"

text \<open>
  The result lists hold \<open>{start, end}\<close> as a pair of instants; the source prints
  each with \<open>toISOString\<close>, which is one-to-one on time values.
\<close>

definition calculateAdjacentSlots ::
  "int \<Rightarrow> processed_event list \<Rightarrow> instant \<Rightarrow> instant \<Rightarrow> (instant \<times> instant) list" where
  "calculateAdjacentSlots tza processedEvents startOfBusinessDay endOfBusinessDay =
     (let slots = buildSlots tza startOfBusinessDay endOfBusinessDay
      in if length processedEvents = 0 then []
         else map (\<lambda>slot. (slot_start slot, slot_end slot))
                (filter (\<lambda>slot. \<not> isOverlapping slot \<and> isAdjacent slot)
                   (foldl (markEvent tza) slots processedEvents)))"

text \<open>
  \<open>calculateAllSlots\<close>: the same tiling, and the overlap marking alone. Its slot
  objects have no \<open>isAdjacent\<close> field; here the field stays \<open>False\<close>.
\<close>

definition markOverlap :: "instant \<Rightarrow> instant \<Rightarrow> slot \<Rightarrow> slot" where
  "markOverlap eventStart eventEnd slot =
     (if isOverlapping slot then slot
      else if slot_start slot < eventEnd \<and> slot_end slot > eventStart
        then slot\<lparr>isOverlapping := True\<rparr>
      else slot)"

definition markEventOverlap :: "slot list \<Rightarrow> processed_event \<Rightarrow> slot list" where
  "markEventOverlap slots event =
     (case (start_dateTime event, end_dateTime event) of
        (Some eventStart, Some eventEnd) \<Rightarrow> map (markOverlap eventStart eventEnd) slots
      | _ \<Rightarrow> slots)"

definition calculateAllSlots ::
  "int \<Rightarrow> processed_event list \<Rightarrow> instant \<Rightarrow> instant \<Rightarrow> (instant \<times> instant) list" where
  "calculateAllSlots tza processedEvents startOfBusinessDay endOfBusinessDay =
     (let slots = buildSlots tza startOfBusinessDay endOfBusinessDay
      in map (\<lambda>slot. (slot_start slot, slot_end slot))
           (filter (\<lambda>slot. \<not> isOverlapping slot)
              (foldl markEventOverlap slots processedEvents)))"

section \<open>The business window and the request handlers\<close>

text \<open>
  \<open>isEasternTimeDST(dateStr)\<close> for the date string with the fields \<open>year\<close>,
  \<open>month\<close> (1 to 12) and \<open>day\<close>; \<open>date.getUTCFullYear()\<close> is the year of the
  string.
\<close>

definition isEasternTimeDST :: "int \<Rightarrow> int \<Rightarrow> int \<Rightarrow> bool" where
  "isEasternTimeDST year month day =
     (let date = parseDateAt year month day 12;
          march1 = DateUTC year 2 1 0;
          marchSecondSunday = addUTCDate march1 ((7 - getUTCDay march1) mod 7 + 7);
          november1 = DateUTC year 10 1 0;
          novemberFirstSunday = addUTCDate november1 ((7 - getUTCDay november1) mod 7)
      in date \<ge> marchSecondSunday \<and> date < novemberFirstSunday)"

text \<open>
  The window of \<open>/api/available-slots\<close>: \<open>slotsStart\<close> and \<open>slotsEnd\<close> for the
  date string with the fields \<open>year\<close>, \<open>month\<close> (1 to 12) and \<open>day\<close>.
\<close>

definition businessWindow :: "int \<Rightarrow> int \<Rightarrow> int \<Rightarrow> instant \<times> instant" where
  "businessWindow year month day =
     (let isDST = isEasternTimeDST year month day;
          utcOffset = (if isDST then 4 else 5);
          slotsStart = DateUTC year (month - 1) day (9 + utcOffset);
          slotsEnd = DateUTC year (month - 1) day (17 + utcOffset)
      in (slotsStart, slotsEnd))"

text \<open>The body of \<open>rawEvents.forEach\<close> of \<open>/api/available-slots\<close>, and the loop.\<close>

definition processRawEvent :: "instant \<Rightarrow> instant \<Rightarrow> instant \<Rightarrow> raw_event \<Rightarrow> processed_event list" where
  "processRawEvent selectedDateUTC slotsStart slotsEnd event =
     (case event of
        AllDay eventStartDate eventEndDateExclusive \<Rightarrow>
          if selectedDateUTC \<ge> eventStartDate \<and> selectedDateUTC < eventEndDateExclusive
          then [\<lparr>start_dateTime = Some slotsStart, end_dateTime = Some slotsEnd,
                 isSyntheticAllDay = True\<rparr>]
          else []
      | Timed eventStart eventEnd \<Rightarrow>
          if eventStart < slotsEnd \<and> eventEnd > slotsStart
          then [\<lparr>start_dateTime = Some eventStart, end_dateTime = Some eventEnd,
                 isSyntheticAllDay = False\<rparr>]
          else []
      | Untimed \<Rightarrow> [])"

definition processRawEvents :: "instant \<Rightarrow> instant \<Rightarrow> instant \<Rightarrow> raw_event list \<Rightarrow> processed_event list" where
  "processRawEvents selectedDateUTC slotsStart slotsEnd rawEvents =
     concat (map (processRawEvent selectedDateUTC slotsStart slotsEnd) rawEvents)"

text \<open>
  \<open>/api/available-slots\<close> from the parsed date on. \<open>listEvents\<close> stands for the
  calendar: given \<open>timeMin\<close> and \<open>timeMax\<close> it answers with the events that are
  neither cancelled nor transparent.
\<close>

definition availableSlots ::
  "int \<Rightarrow> (instant \<Rightarrow> instant \<Rightarrow> raw_event list) \<Rightarrow> int \<Rightarrow> int \<Rightarrow> int \<Rightarrow> (instant \<times> instant) list" where
  "availableSlots tza listEvents year month day =
     (let selectedDateUTC = DateUTC year (month - 1) day 0;
          dayOfWeek = getUTCDay selectedDateUTC
      in if dayOfWeek = 0 \<or> dayOfWeek = 6 then []
         else
           (let isDST = isEasternTimeDST year month day;
                utcOffset = (if isDST then 4 else 5);
                queryStart = DateUTC year (month - 1) day utcOffset;
                queryEnd = DateUTC year (month - 1) (day + 1) utcOffset;
                slotsStart = DateUTC year (month - 1) day (9 + utcOffset);
                slotsEnd = DateUTC year (month - 1) day (17 + utcOffset);
                rawEvents = listEvents queryStart queryEnd;
                processedEvents = processRawEvents selectedDateUTC slotsStart slotsEnd rawEvents
            in calculateAdjacentSlots tza processedEvents slotsStart slotsEnd))"

text \<open>
  One round of the loop \<open>for (let day = 1; day <= daysInMonth; day++)\<close> of
  \<open>/api/month-availability\<close>: the value stored in \<open>availability[dateStr]\<close>.
  \<open>monthNum\<close> counts from 0; \<open>events\<close> are the month's events.
\<close>

definition timedEvent :: "raw_event \<Rightarrow> processed_event list" where
  "timedEvent event =
     (case event of
        Timed eventStart eventEnd \<Rightarrow>
          [\<lparr>start_dateTime = Some eventStart, end_dateTime = Some eventEnd,
            isSyntheticAllDay = False\<rparr>]
      | _ \<Rightarrow> [])"

definition monthDayAvailability :: "int \<Rightarrow> raw_event list \<Rightarrow> int \<Rightarrow> int \<Rightarrow> int \<Rightarrow> bool" where
  "monthDayAvailability tza events yearNum monthNum day =
     (let currentDate = DateUTC yearNum monthNum day 0;
          dayOfWeek = getDay tza currentDate
      in if dayOfWeek = 0 \<or> dayOfWeek = 6 then False
         else
           (let queryStart = DateUTC yearNum monthNum day 13;
                queryEnd = DateUTC yearNum monthNum day 22;
                dayEvents = filter (\<lambda>event.
                    case event of
                      Timed eventStart eventEnd \<Rightarrow>
                        (eventStart \<ge> queryStart \<and> eventStart < queryEnd) \<or>
                        (eventEnd > queryStart \<and> eventEnd \<le> queryEnd) \<or>
                        (eventStart \<le> queryStart \<and> eventEnd \<ge> queryEnd)
                    | _ \<Rightarrow> False) events;
                slotsStart = DateUTC yearNum monthNum day 14;
                slotsEnd = DateUTC yearNum monthNum day 22;
                availableSlots = calculateAdjacentSlots tza (concat (map timedEvent dayEvents))
                                   slotsStart slotsEnd
            in length availableSlots > 0))"

text \<open>
  \<open>/api/book\<close> up to the insertion: \<open>startTime\<close> and \<open>endTime\<close> are the parsed
  time strings of the request body (\<open>None\<close> when the field is missing), and the
  response is either status 400 with its message or the event handed to
  \<open>calendar.events.insert\<close> with its start and end.
\<close>

record booking =
  startTime :: "instant option"
  endTime :: "instant option"
  name :: string
  email :: string

datatype book_result = BadRequest string | Inserted instant instant

definition book :: "int \<Rightarrow> booking \<Rightarrow> book_result" where
  "book tza body =
     (case (startTime body, endTime body) of
        (Some startDate, Some endDate) \<Rightarrow>
          if name body = [] \<or> email body = [] then BadRequest ''Missing required parameters''
          else
            (let dayOfWeek = getDay tza startDate
             in if dayOfWeek = 0 \<or> dayOfWeek = 6
                then BadRequest ''Appointments cannot be booked on weekends''
                else
                  (let startHourUTC = getUTCHours startDate;
                       endHourUTC = getUTCHours endDate;
                       startMinUTC = getUTCMinutes startDate;
                       endMinUTC = getUTCMinutes endDate
                   in if startHourUTC < 14 \<or> (startHourUTC = 22 \<and> startMinUTC > 0) \<or> startHourUTC > 22
                         \<or> endHourUTC < 14 \<or> endHourUTC > 22
                      then BadRequest ''Appointments must be between 9AM and 5PM Eastern Time''
                      else Inserted startDate endDate))
      | _ \<Rightarrow> BadRequest ''Missing required parameters'')"

section \<open>Notions used to state the properties\<close>

text \<open>
  The rounding rule in the specification's words, on the host's local wall clock:
  the seconds are zeroed and the hour is kept; rounding down sets the minutes to 30
  when they are 30 or more and to 0 otherwise; rounding up moves to the next full hour
  when the minutes are above 30, sets them to 30 when they are from 1 to 30, and leaves
  minute 0. \<open>hourStart\<close> is the local time at minute 0 of the hour, \<open>m\<close> the minutes.
\<close>

definition specRoundDown :: "int \<Rightarrow> instant \<Rightarrow> instant" where
  "specRoundDown tza t =
     (let localTime = t + tza; hourStart = localTime - localTime mod msPerHour;
          m = (localTime mod msPerHour) div msPerMinute
      in (if m \<ge> 30 then hourStart + 30 * msPerMinute else hourStart) - tza)"

definition specRoundUp :: "int \<Rightarrow> instant \<Rightarrow> instant" where
  "specRoundUp tza t =
     (let localTime = t + tza; hourStart = localTime - localTime mod msPerHour;
          m = (localTime mod msPerHour) div msPerMinute
      in (if m > 30 then hourStart + msPerHour
          else if 0 < m \<and> m \<le> 30 then hourStart + 30 * msPerMinute
          else hourStart) - tza)"

text \<open>
  The two tests of the marking loop as predicates of a slot and an event: the half-open
  intersection test, and the adjacency test on the rounded boundaries, which asks for an
  event that is not a synthetic all-day block. An event without \<open>start.dateTime\<close> or
  \<open>end.dateTime\<close> passes neither.
\<close>

definition overlapsEvent :: "slot \<Rightarrow> processed_event \<Rightarrow> bool" where
  "overlapsEvent sl ev =
     (case (start_dateTime ev, end_dateTime ev) of
        (Some eventStart, Some eventEnd) \<Rightarrow> slot_start sl < eventEnd \<and> slot_end sl > eventStart
      | _ \<Rightarrow> False)"

definition adjacentToEvent :: "int \<Rightarrow> slot \<Rightarrow> processed_event \<Rightarrow> bool" where
  "adjacentToEvent tza sl ev =
     (case (start_dateTime ev, end_dateTime ev) of
        (Some eventStart, Some eventEnd) \<Rightarrow>
          \<not> isSyntheticAllDay ev \<and>
          (slot_end sl = roundDown30 tza eventStart \<or> slot_start sl = roundUp30 tza eventEnd)
      | _ \<Rightarrow> False)"

text \<open>
  The tiling in closed form: the slot starting at \<open>a\<close> with both flags unset, and the
  slots \<open>start + k\<close> half hours for \<open>k\<close> below \<open>floor ((end - start) / 30 min)\<close>
  (1800000 ms are 30 minutes).
\<close>

definition freshSlot :: "instant \<Rightarrow> slot" where
  "freshSlot a = \<lparr>slot_start = a, slot_end = a + 1800000,
                   isOverlapping = False, isAdjacent = False\<rparr>"

definition tiling :: "instant \<Rightarrow> instant \<Rightarrow> slot list" where
  "tiling s e = map (\<lambda>k. freshSlot (s + int k * 1800000)) [0 ..< nat ((e - s) div 1800000)]"

text \<open>
  What one round of the outer loop does to a single slot, in \<open>calculateAdjacentSlots\<close>
  (\<open>slotStep\<close>) and in \<open>calculateAllSlots\<close> (\<open>overlapStep\<close>): the loops over the
  events are folds of these over each slot (lemmas \<open>foldl_markEvent\<close> and
  \<open>foldl_markEventOverlap\<close>).
\<close>

definition slotStep :: "int \<Rightarrow> slot \<Rightarrow> processed_event \<Rightarrow> slot" where
  "slotStep tza sl ev =
     (case (start_dateTime ev, end_dateTime ev) of
        (Some eventStart, Some eventEnd) \<Rightarrow>
          markSlot eventStart eventEnd (isSyntheticAllDay ev)
            (roundDown30 tza eventStart) (roundUp30 tza eventEnd) sl
      | _ \<Rightarrow> sl)"

definition overlapStep :: "slot \<Rightarrow> processed_event \<Rightarrow> slot" where
  "overlapStep sl ev =
     (case (start_dateTime ev, end_dateTime ev) of
        (Some eventStart, Some eventEnd) \<Rightarrow> markOverlap eventStart eventEnd sl
      | _ \<Rightarrow> sl)"

text \<open>
  Day numbers count days since 1970-01-01. The second Sunday of March is the Sunday
  among 8 to 14 March, the first Sunday of November the Sunday among 1 to 7 November.
\<close>

definition isSecondSundayOfMarch :: "int \<Rightarrow> int \<Rightarrow> bool" where
  "isSecondSundayOfMarch year d \<longleftrightarrow>
     MakeDay year 2 8 \<le> d \<and> d \<le> MakeDay year 2 14 \<and> WeekDay (MakeDate d 0) = 0"

definition isFirstSundayOfNovember :: "int \<Rightarrow> int \<Rightarrow> bool" where
  "isFirstSundayOfNovember year d \<longleftrightarrow>
     MakeDay year 10 1 \<le> d \<and> d \<le> MakeDay year 10 7 \<and> WeekDay (MakeDate d 0) = 0"

section \<open>Date arithmetic, tiling and marking: supporting lemmas\<close>

lemma time_fields:
  "MakeDate (Day t) (MakeTime (HourFromTime t) (MinFromTime t) (SecFromTime t) (msFromTime t)) = t"
proof -
  have a: "t = (t div 1000) * 1000 + t mod 1000" by simp
  have b: "t div 1000 = (t div 60000) * 60 + (t div 1000) mod 60"
    using div_mult_mod_eq [of "t div 1000" 60] by (simp add: zdiv_zmult2_eq [symmetric])
  have c: "t div 60000 = (t div 3600000) * 60 + (t div 60000) mod 60"
    using div_mult_mod_eq [of "t div 60000" 60] by (simp add: zdiv_zmult2_eq [symmetric])
  have d: "t div 3600000 = (t div 86400000) * 24 + (t div 3600000) mod 24"
    using div_mult_mod_eq [of "t div 3600000" 24] by (simp add: zdiv_zmult2_eq [symmetric])
  have comb: "x = q1 * 1000 + r1 \<Longrightarrow> q1 = q2 * 60 + r2 \<Longrightarrow> q2 = q3 * 60 + r3
      \<Longrightarrow> q3 = q4 * 24 + r4
      \<Longrightarrow> q4 * 86400000 + (r4 * 3600000 + r3 * 60000 + r2 * 1000 + r1) = x"
    for x q1 q2 q3 q4 r1 r2 r3 r4 :: int
    by simp
  show ?thesis
    unfolding MakeDate_def MakeTime_def Day_def HourFromTime_def MinFromTime_def
      SecFromTime_def msFromTime_def
    by (rule comb [OF a b c d])
qed

lemma setMinutes_eq: "setMinutes tza t m = t + (m - getMinutes tza t) * msPerMinute"
proof -
  define tl where "tl = LocalTime tza t"
  have "MakeDate (Day tl) (MakeTime (HourFromTime tl) m (SecFromTime tl) (msFromTime tl))
        = MakeDate (Day tl) (MakeTime (HourFromTime tl) (MinFromTime tl) (SecFromTime tl) (msFromTime tl))
          + (m - MinFromTime tl) * msPerMinute"
    by (simp add: MakeDate_def MakeTime_def algebra_simps)
  then show ?thesis
    by (simp add: setMinutes_def getMinutes_def Let_def UTC_def tl_def [symmetric] time_fields)
       (simp add: tl_def LocalTime_def)
qed

lemma setHours_eq: "setHours tza t h = t + (h - getHours tza t) * msPerHour"
proof -
  define tl where "tl = LocalTime tza t"
  have "MakeDate (Day tl) (MakeTime h (MinFromTime tl) (SecFromTime tl) (msFromTime tl))
        = MakeDate (Day tl) (MakeTime (HourFromTime tl) (MinFromTime tl) (SecFromTime tl) (msFromTime tl))
          + (h - HourFromTime tl) * msPerHour"
    by (simp add: MakeDate_def MakeTime_def algebra_simps)
  then show ?thesis
    by (simp add: setHours_def getHours_def Let_def UTC_def tl_def [symmetric] time_fields)
       (simp add: tl_def LocalTime_def)
qed

lemma setSeconds_eq: "setSeconds tza t 0 0 = t - (t + tza) mod msPerMinute"
proof -
  define tl where "tl = LocalTime tza t"
  have m: "tl mod 60000 = 1000 * ((tl div 1000) mod 60) + tl mod 1000"
    using zmod_zmult2_eq [of 60 tl 1000] by simp
  have "MakeDate (Day tl) (MakeTime (HourFromTime tl) (MinFromTime tl) 0 0)
        = MakeDate (Day tl) (MakeTime (HourFromTime tl) (MinFromTime tl) (SecFromTime tl) (msFromTime tl))
          - (SecFromTime tl * 1000 + msFromTime tl)"
    by (simp add: MakeDate_def MakeTime_def algebra_simps)
  also have "\<dots> = tl - (SecFromTime tl * 1000 + msFromTime tl)"
    by (simp only: time_fields)
  also have "\<dots> = tl - tl mod 60000"
    by (simp add: m SecFromTime_def msFromTime_def)
  finally show ?thesis
    by (simp add: setSeconds_def Let_def UTC_def tl_def [symmetric])
       (simp add: tl_def LocalTime_def)
qed

lemma getMinutes_setSeconds:
  "getMinutes tza (setSeconds tza t 0 0) = ((t + tza) div msPerMinute) mod 60"
proof -
  have "t - (t + tza) mod 60000 + tza = t + tza - (t + tza) mod 60000"
    by simp
  also have "\<dots> = ((t + tza) div 60000) * 60000"
    by (rule minus_mod_eq_div_mult)
  finally have e: "t - (t + tza) mod 60000 + tza = ((t + tza) div 60000) * 60000" .
  have "(t - (t + tza) mod 60000 + tza) div 60000 = (t + tza) div 60000"
    unfolding e by simp
  then show ?thesis
    by (simp add: getMinutes_def MinFromTime_def LocalTime_def setSeconds_eq)
qed

lemma hour_minute: "((x::int) mod msPerHour) div msPerMinute = (x div msPerMinute) mod 60"
  using zmod_zmult2_eq [of 60 x 60000] by simp

lemma hour_start: "(x::int) - x mod msPerHour
    = x - x mod msPerMinute - ((x div msPerMinute) mod 60) * msPerMinute"
  using zmod_zmult2_eq [of 60 x 60000] by simp

lemma roundDown30_spec: "roundDown30 tza t = specRoundDown tza t"
proof -
  define r where "r = setSeconds tza t 0 0"
  define m where "m = ((t + tza) div msPerMinute) mod 60"
  have gm: "getMinutes tza r = m"
    by (simp add: r_def m_def getMinutes_setSeconds)
  have r: "r = t - (t + tza) mod msPerMinute"
    by (simp add: r_def setSeconds_eq)
  have hs: "t + tza - (t + tza) mod msPerHour = r + tza - m * msPerMinute"
    using hour_start [of "t + tza"] by (simp add: r m_def)
  have "roundDown30 tza t = (if m \<ge> 30 then r + (30 - m) * msPerMinute else r - m * msPerMinute)"
    by (simp add: roundDown30_def Let_def r_def [symmetric] gm setMinutes_eq)
  also have "\<dots> = specRoundDown tza t"
    unfolding specRoundDown_def Let_def hour_minute m_def [symmetric] hs
    by (simp add: algebra_simps)
  finally show ?thesis .
qed

lemma roundUp30_spec: "roundUp30 tza t = specRoundUp tza t"
proof -
  define r where "r = setSeconds tza t 0 0"
  define m where "m = ((t + tza) div msPerMinute) mod 60"
  have gm: "getMinutes tza r = m"
    by (simp add: r_def m_def getMinutes_setSeconds)
  have r: "r = t - (t + tza) mod msPerMinute"
    by (simp add: r_def setSeconds_eq)
  have hs: "t + tza - (t + tza) mod msPerHour = r + tza - m * msPerMinute"
    using hour_start [of "t + tza"] by (simp add: r m_def)
  have "roundUp30 tza t = (if m > 30 then r - m * msPerMinute + msPerHour
          else if 0 < m \<and> m \<le> 30 then r + (30 - m) * msPerMinute else r)"
    by (simp add: roundUp30_def Let_def r_def [symmetric] gm setMinutes_eq setHours_eq)
  also have "\<dots> = specRoundUp tza t"
    unfolding specRoundUp_def Let_def hour_minute m_def [symmetric] hs
    using m_def by (auto simp add: algebra_simps)
  finally show ?thesis .
qed

lemma setMinutes_30: "setMinutes tza t (getMinutes tza t + 30) = t + 1800000"
  by (simp add: setMinutes_eq)

lemma nat_div_step:
  assumes "s + 1800000 \<le> (e::int)"
  shows "nat ((e - s) div 1800000) = Suc (nat ((e - (s + 1800000)) div 1800000))"
proof -
  have "(e - s) div 1800000 = (e - (s + 1800000) + 1800000) div 1800000"
    by simp
  also have "\<dots> = (e - (s + 1800000)) div 1800000 + 1"
    by (rule div_add_self2) simp
  finally have eq: "(e - s) div 1800000 = (e - (s + 1800000)) div 1800000 + 1" .
  have "0 \<le> (e - (s + 1800000)) div 1800000"
    using assms by (simp add: pos_imp_zdiv_nonneg_iff)
  with eq show ?thesis by simp
qed

lemma buildSlots_tiling: "buildSlots tza s e = tiling s e"
proof (induction tza s e rule: buildSlots.induct)
  case (1 tza current e)
  show ?case
  proof (cases "current < e")
    case False
    then have "(e - current) div 1800000 \<le> 0"
      by (simp add: div_nonpos_pos_le0)
    with False show ?thesis
      by (simp add: buildSlots.simps [of tza current e] tiling_def)
  next
    case True
    note IH = "1.IH" [OF True refl refl, unfolded setMinutes_30]
    show ?thesis
    proof (cases "current + 1800000 \<le> e")
      case fits: True
      have "tiling current e = freshSlot current # tiling (current + 1800000) e"
        unfolding tiling_def nat_div_step [OF fits] map_upt_Suc
        by (simp add: algebra_simps)
      with True fits IH show ?thesis
        by (simp add: buildSlots.simps [of tza current e] setMinutes_30 freshSlot_def Let_def)
    next
      case short: False
      have "(e - current) div 1800000 = 0"
        using True short by (simp add: div_pos_pos_trivial)
      moreover have "(e - (current + 1800000)) div 1800000 \<le> 0"
        using short by (simp add: div_nonpos_pos_le0)
      ultimately have "tiling current e = []" and "tiling (current + 1800000) e = []"
        by (simp_all add: tiling_def)
      with True short IH show ?thesis
        by (simp add: buildSlots.simps [of tza current e] setMinutes_30 Let_def)
    qed
  qed
qed

lemma markEvent_map: "markEvent tza slots ev = map (\<lambda>sl. slotStep tza sl ev) slots"
  by (simp add: markEvent_def slotStep_def Let_def split: option.splits)

lemma foldl_markEvent:
  "foldl (markEvent tza) slots evs = map (\<lambda>sl. foldl (slotStep tza) sl evs) slots"
  by (induction evs arbitrary: slots) (simp_all add: markEvent_map comp_def)

lemma slotStep_bounds [simp]:
  "slot_start (slotStep tza sl ev) = slot_start sl" "slot_end (slotStep tza sl ev) = slot_end sl"
  by (simp_all add: slotStep_def markSlot_def Let_def split: option.splits)

lemma slotStep_overlapping:
  "isOverlapping (slotStep tza sl ev) \<longleftrightarrow> isOverlapping sl \<or> overlapsEvent sl ev"
  by (auto simp: slotStep_def markSlot_def overlapsEvent_def Let_def split: option.splits)

lemma slotStep_adjacent:
  "isAdjacent (slotStep tza sl ev) \<longleftrightarrow>
     isAdjacent sl \<or> (\<not> isOverlapping sl \<and> \<not> overlapsEvent sl ev \<and> adjacentToEvent tza sl ev)"
  by (auto simp: slotStep_def markSlot_def overlapsEvent_def adjacentToEvent_def Let_def
      split: option.splits)

lemma overlapsEvent_step [simp]: "overlapsEvent (slotStep tza sl ev) ev' = overlapsEvent sl ev'"
  by (simp add: overlapsEvent_def split: option.splits)

lemma adjacentToEvent_step [simp]:
  "adjacentToEvent tza (slotStep tza' sl ev) ev' = adjacentToEvent tza sl ev'"
  by (simp add: adjacentToEvent_def split: option.splits)

lemma foldl_slotStep_bounds [simp]:
  "slot_start (foldl (slotStep tza) sl evs) = slot_start sl"
  "slot_end (foldl (slotStep tza) sl evs) = slot_end sl"
  by (induction evs arbitrary: sl) simp_all

lemma foldl_slotStep_overlapping:
  "isOverlapping (foldl (slotStep tza) sl evs)
     \<longleftrightarrow> isOverlapping sl \<or> (\<exists>ev\<in>set evs. overlapsEvent sl ev)"
  by (induction evs arbitrary: sl) (auto simp: slotStep_overlapping)

lemma foldl_slotStep_bookable:
  "\<not> isOverlapping (foldl (slotStep tza) sl evs) \<and> isAdjacent (foldl (slotStep tza) sl evs)
     \<longleftrightarrow> \<not> isOverlapping sl \<and> (\<forall>ev\<in>set evs. \<not> overlapsEvent sl ev)
          \<and> (isAdjacent sl \<or> (\<exists>ev\<in>set evs. adjacentToEvent tza sl ev))"
proof (induction evs arbitrary: sl)
  case Nil
  show ?case by simp
next
  case (Cons ev evs)
  show ?case
    unfolding foldl_Cons Cons.IH
    by (auto simp: slotStep_overlapping slotStep_adjacent)
qed

lemma markEventOverlap_map: "markEventOverlap slots ev = map (\<lambda>sl. overlapStep sl ev) slots"
  by (simp add: markEventOverlap_def overlapStep_def split: option.splits)

lemma foldl_markEventOverlap:
  "foldl markEventOverlap slots evs = map (\<lambda>sl. foldl overlapStep sl evs) slots"
  by (induction evs arbitrary: slots) (simp_all add: markEventOverlap_map comp_def)

lemma overlapStep_bounds [simp]:
  "slot_start (overlapStep sl ev) = slot_start sl" "slot_end (overlapStep sl ev) = slot_end sl"
  by (simp_all add: overlapStep_def markOverlap_def split: option.splits)

lemma overlapsEvent_overlapStep [simp]: "overlapsEvent (overlapStep sl ev) ev' = overlapsEvent sl ev'"
  by (simp add: overlapsEvent_def split: option.splits)

lemma overlapStep_overlapping:
  "isOverlapping (overlapStep sl ev) \<longleftrightarrow> isOverlapping sl \<or> overlapsEvent sl ev"
  by (auto simp: overlapStep_def markOverlap_def overlapsEvent_def split: option.splits)

lemma foldl_overlapStep_bounds [simp]:
  "slot_start (foldl overlapStep sl evs) = slot_start sl"
  "slot_end (foldl overlapStep sl evs) = slot_end sl"
  by (induction evs arbitrary: sl) simp_all

lemma foldl_overlapStep_overlapping:
  "isOverlapping (foldl overlapStep sl evs)
     \<longleftrightarrow> isOverlapping sl \<or> (\<exists>ev\<in>set evs. overlapsEvent sl ev)"
  by (induction evs arbitrary: sl) (auto simp: overlapStep_overlapping)

lemma tiling_fresh: "sl \<in> set (tiling s e) \<Longrightarrow> \<not> isOverlapping sl \<and> \<not> isAdjacent sl"
  by (auto simp: tiling_def freshSlot_def)

lemma calculateAdjacentSlots_tiling:
  "calculateAdjacentSlots tza evs s e =
     map (\<lambda>sl. (slot_start sl, slot_end sl))
       (filter (\<lambda>sl. (\<forall>ev\<in>set evs. \<not> overlapsEvent sl ev) \<and> (\<exists>ev\<in>set evs. adjacentToEvent tza sl ev))
          (tiling s e))"
proof (cases "evs = []")
  case True
  then show ?thesis by (simp add: calculateAdjacentSlots_def)
next
  case False
  have keep: "filter (\<lambda>sl. \<not> isOverlapping (foldl (slotStep tza) sl evs) \<and> isAdjacent (foldl (slotStep tza) sl evs)) (tiling s e)
      = filter (\<lambda>sl. (\<forall>ev\<in>set evs. \<not> overlapsEvent sl ev) \<and> (\<exists>ev\<in>set evs. adjacentToEvent tza sl ev)) (tiling s e)"
    by (rule filter_cong [OF refl]) (use tiling_fresh in \<open>auto simp: foldl_slotStep_bookable\<close>)
  from False show ?thesis
    by (simp add: calculateAdjacentSlots_def buildSlots_tiling foldl_markEvent filter_map keep comp_def)
qed

lemma calculateAllSlots_tiling:
  "calculateAllSlots tza evs s e =
     map (\<lambda>sl. (slot_start sl, slot_end sl))
       (filter (\<lambda>sl. \<forall>ev\<in>set evs. \<not> overlapsEvent sl ev) (tiling s e))"
proof -
  have keep: "filter (\<lambda>sl. \<not> isOverlapping (foldl overlapStep sl evs)) (tiling s e)
      = filter (\<lambda>sl. \<forall>ev\<in>set evs. \<not> overlapsEvent sl ev) (tiling s e)"
    by (rule filter_cong [OF refl]) (use tiling_fresh in \<open>auto simp: foldl_overlapStep_overlapping\<close>)
  show ?thesis
    by (simp add: calculateAllSlots_def buildSlots_tiling foldl_markEventOverlap filter_map keep comp_def)
qed

lemma tiling_member:
  assumes "sl \<in> set (tiling s e)"
  shows "slot_end sl = slot_start sl + 1800000 \<and> (\<exists>k::nat. slot_start sl = s + int k * 1800000)
         \<and> s \<le> slot_start sl \<and> slot_end sl \<le> e"
proof -
  from assms obtain k where k: "k < nat ((e - s) div 1800000)" and sl: "sl = freshSlot (s + int k * 1800000)"
    by (auto simp: tiling_def)
  have split: "(e - s) div 1800000 * 1800000 + (e - s) mod 1800000 = e - s"
    by simp
  have nonneg: "0 \<le> (e - s) mod 1800000"
    by simp
  have le: "int k + 1 \<le> (e - s) div 1800000"
    using k by simp
  have bound: "q * 1800000 + r = x \<Longrightarrow> 0 \<le> r \<Longrightarrow> j + 1 \<le> q \<Longrightarrow> j * 1800000 + 1800000 \<le> x"
    for q r x j :: int
    by simp
  have "int k * 1800000 + 1800000 \<le> e - s"
    by (rule bound [OF split nonneg le])
  then show ?thesis
    by (auto simp: sl freshSlot_def)
qed

lemma tiling_sorted:
  "sorted_wrt (\<lambda>p q. snd p \<le> fst q \<and> fst p < fst q)
     (map (\<lambda>sl. (slot_start sl, slot_end sl)) (filter P (tiling s e)))"
proof -
  have "sorted_wrt (\<lambda>i j. s + int i * 1800000 + 1800000 \<le> s + int j * 1800000
                          \<and> s + int i * 1800000 < s + int j * 1800000)
          [0 ..< nat ((e - s) div 1800000)]"
    by (rule sorted_wrt_mono_rel [OF _ sorted_wrt_upt]) simp
  then have "sorted_wrt (\<lambda>a b. slot_end a \<le> slot_start b \<and> slot_start a < slot_start b) (tiling s e)"
    by (simp add: tiling_def sorted_wrt_map freshSlot_def)
  then have "sorted_wrt (\<lambda>a b. slot_end a \<le> slot_start b \<and> slot_start a < slot_start b)
               (filter P (tiling s e))"
    by (rule sorted_wrt_filter)
  then show ?thesis
    by (simp add: sorted_wrt_map)
qed

lemma tiling_pair_member:
  assumes "p \<in> set (map (\<lambda>sl. (slot_start sl, slot_end sl)) (filter P (tiling s e)))"
  shows "snd p = fst p + 1800000 \<and> (\<exists>k::nat. fst p = s + int k * 1800000) \<and> s \<le> fst p \<and> snd p \<le> e"
proof -
  from assms obtain sl where "sl \<in> set (tiling s e)" and "p = (slot_start sl, slot_end sl)"
    by auto
  then show ?thesis
    using tiling_member [of sl s e] by simp
qed

lemma MakeDay_date: "MakeDay y m d = MakeDay y m 1 + (d - 1)"
  by (simp add: MakeDay_def Let_def)

lemma WeekDay_midnight: "WeekDay (MakeDate d 0) = (d + 4) mod 7"
  by (simp add: WeekDay_def MakeDate_def Day_def)

lemma DateUTC_full_year: "100 \<le> year \<Longrightarrow> DateUTC year m d h = MakeDay year m d * msPerDay + h * msPerHour"
  by (simp add: DateUTC_def MakeDate_def MakeTime_def)

lemma parseDateAt_eq: "parseDateAt year month day h = MakeDay year (month - 1) day * msPerDay + h * msPerHour"
  by (simp add: parseDateAt_def MakeDate_def MakeTime_def)

lemma sunday_in_week:
  assumes "lo \<le> m" "m \<le> lo + 6" "(m + 4) mod 7 = 0"
  shows "m = lo + (7 - (lo + 4) mod 7) mod (7::int)"
proof -
  define r where "r = (lo + 4) mod 7"
  define p where "p = (lo + 4) div 7"
  have lo: "lo + 4 = 7 * p + r"
    by (simp add: r_def p_def)
  have r: "0 \<le> r" "r < 7"
    by (simp_all add: r_def)
  from assms(3) obtain q where q: "m + 4 = 7 * q"
    by (auto simp: mod_eq_0_iff_dvd)
  show ?thesis
  proof (cases "r = 0")
    case True
    with lo q assms(1,2) have "q = p" by linarith
    with lo q True have "m = lo" by simp
    with True show ?thesis
      unfolding r_def [symmetric] by simp
  next
    case False
    with r have a: "0 \<le> 7 - r" "7 - r < 7"
      by simp_all
    have mod: "(7 - r) mod 7 = 7 - r"
      by (rule mod_pos_pos_trivial [OF a])
    from False r lo q assms(1,2) have "q = p + 1" by linarith
    with lo q have "m = lo + (7 - r)" by simp
    then show ?thesis
      unfolding r_def [symmetric] mod .
  qed
qed

lemma week_shift: "((d0::int) + 7 + 4) mod 7 = (d0 + 4) mod 7"
proof -
  have "(d0 + 7 + 4) mod 7 = (d0 + 4 + 1 * 7) mod 7"
    by (simp add: algebra_simps)
  also have "\<dots> = (d0 + 4) mod 7"
    by (rule mod_mult_self1)
  finally show ?thesis .
qed

lemma noon_ge: "(D * 86400000 + 43200000 \<ge> (m::int) * 86400000) \<longleftrightarrow> m \<le> D"
  by auto

lemma noon_less: "(D * 86400000 + 43200000 < (n::int) * 86400000) \<longleftrightarrow> D < n"
  by auto

lemma isEasternTimeDST_days:
  assumes year: "100 \<le> year"
    and m: "isSecondSundayOfMarch year m"
    and n: "isFirstSundayOfNovember year n"
  shows "isEasternTimeDST year month day
           \<longleftrightarrow> m \<le> MakeDay year (month - 1) day \<and> MakeDay year (month - 1) day < n"
proof -
  define d0 where "d0 = MakeDay year 2 1"
  define n0 where "n0 = MakeDay year 10 1"
  define D where "D = MakeDay year (month - 1) day"
  have wd: "getUTCDay (x * msPerDay) = (x + 4) mod 7" for x
    using WeekDay_midnight [of x] by (simp add: getUTCDay_def MakeDate_def)
  from m have "d0 + 7 \<le> m" "m \<le> d0 + 7 + 6" "(m + 4) mod 7 = 0"
    by (simp_all add: isSecondSundayOfMarch_def MakeDay_date [of year 2 8]
        MakeDay_date [of year 2 14] d0_def WeekDay_midnight)
  then have "m = d0 + 7 + (7 - (d0 + 7 + 4) mod 7) mod 7"
    by (rule sunday_in_week)
  also have "(d0 + 7 + 4) mod 7 = (d0 + 4) mod 7"
    by (rule week_shift)
  finally have m_eq: "m = d0 + ((7 - (d0 + 4) mod 7) mod 7 + 7)"
    by simp
  from n have "n0 \<le> n" "n \<le> n0 + 6" "(n + 4) mod 7 = 0"
    by (simp_all add: isFirstSundayOfNovember_def MakeDay_date [of year 10 7]
        n0_def WeekDay_midnight)
  then have n_eq: "n = n0 + (7 - (n0 + 4) mod 7) mod 7"
    by (rule sunday_in_week)
  have march: "addUTCDate (DateUTC year 2 1 0) ((7 - getUTCDay (DateUTC year 2 1 0)) mod 7 + 7)
      = m * msPerDay"
    by (simp add: DateUTC_full_year [OF year] d0_def [symmetric] wd addUTCDate_def m_eq algebra_simps)
  have november: "addUTCDate (DateUTC year 10 1 0) ((7 - getUTCDay (DateUTC year 10 1 0)) mod 7)
      = n * msPerDay"
    by (simp add: DateUTC_full_year [OF year] n0_def [symmetric] wd addUTCDate_def n_eq algebra_simps)
  show ?thesis
    unfolding isEasternTimeDST_def Let_def march november parseDateAt_eq D_def [symmetric]
    using noon_ge [of m D] noon_less [of D n] by simp
qed

lemma tiling_example:
  "tiling 1736344800000 1736350800000 =
     [freshSlot 1736344800000, freshSlot 1736346600000, freshSlot 1736348400000]"
proof -
  have n: "nat ((1736350800000 - 1736344800000) div 1800000) = 3"
    by simp
  have u: "[0 ..< 3] = [0, 1, 2]"
    by (simp add: upt_rec)
  show ?thesis
    unfolding tiling_def n u by simp
qed

lemma rounding_example:
  "roundDown30 0 1736346900000 = 1736346600000" "roundUp30 0 1736348100000 = 1736348400000"
  "roundDown30 0 1736345100000 = 1736344800000" "roundUp30 0 1736345400000 = 1736346600000"
  by (simp_all add: roundDown30_spec roundUp30_spec specRoundDown_def specRoundUp_def)

lemma adjacent_example:
  "calculateAdjacentSlots 0
     [\<lparr>start_dateTime = Some 1736346900000, end_dateTime = Some 1736348100000, isSyntheticAllDay = False\<rparr>]
     1736344800000 1736350800000
   = [(1736344800000, 1736346600000), (1736348400000, 1736350200000)]"
  by (simp add: calculateAdjacentSlots_tiling tiling_example freshSlot_def overlapsEvent_def
      adjacentToEvent_def rounding_example)

lemma all_example:
  "calculateAllSlots 0
     [\<lparr>start_dateTime = Some 1736346900000, end_dateTime = Some 1736348100000, isSyntheticAllDay = False\<rparr>]
     1736344800000 1736350800000
   = [(1736344800000, 1736346600000), (1736348400000, 1736350200000)]"
  by (simp add: calculateAllSlots_tiling tiling_example freshSlot_def overlapsEvent_def)

lemma markSlot_block [simp]: "isAdjacent (markSlot es ee True rd ru sl) = isAdjacent sl"
  by (simp add: markSlot_def)

lemma block_overlaps_tiling:
  assumes "sl \<in> set (tiling s e)"
  shows "overlapsEvent sl \<lparr>start_dateTime = Some s, end_dateTime = Some e, isSyntheticAllDay = True\<rparr>"
  using tiling_member [OF assms] by (simp add: overlapsEvent_def)

lemma block_empties:
  assumes "\<lparr>start_dateTime = Some s, end_dateTime = Some e, isSyntheticAllDay = True\<rparr> \<in> set evs"
  shows "calculateAllSlots tza evs s e = []" and "calculateAdjacentSlots tza evs s e = []"
  using assms block_overlaps_tiling
  by (auto simp: calculateAllSlots_tiling calculateAdjacentSlots_tiling filter_empty_conv)

lemma block_in_processed:
  assumes "AllDay sd ed \<in> set rawEvents" "sd \<le> sel" "sel < ed"
  shows "\<lparr>start_dateTime = Some s, end_dateTime = Some e, isSyntheticAllDay = True\<rparr>
           \<in> set (processRawEvents sel s e rawEvents)"
  using assms by (force simp: processRawEvents_def processRawEvent_def)

lemma availableSlots_weekend:
  "getUTCDay (DateUTC year (month - 1) day 0) = 0 \<or> getUTCDay (DateUTC year (month - 1) day 0) = 6
     \<Longrightarrow> availableSlots tza listEvents year month day = []"
  by (simp add: availableSlots_def Let_def)

lemma availableSlots_window:
  assumes "getUTCDay (DateUTC year (month - 1) day 0) \<noteq> 0"
    and "getUTCDay (DateUTC year (month - 1) day 0) \<noteq> 6"
  shows "availableSlots tza listEvents year month day =
     (let utcOffset = (if isEasternTimeDST year month day then 4 else 5);
          slotsStart = fst (businessWindow year month day);
          slotsEnd = snd (businessWindow year month day)
      in calculateAdjacentSlots tza
           (processRawEvents (DateUTC year (month - 1) day 0) slotsStart slotsEnd
              (listEvents (DateUTC year (month - 1) day utcOffset)
                 (DateUTC year (month - 1) (day + 1) utcOffset)))
           slotsStart slotsEnd)"
  using assms by (simp add: availableSlots_def businessWindow_def Let_def)

lemma tiling_memberI:
  assumes "0 \<le> k" "s + k * 1800000 + 1800000 \<le> e"
  shows "freshSlot (s + k * 1800000) \<in> set (tiling s e)"
proof -
  have "(k + 1) * 1800000 \<le> e - s"
    using assms(2) by (simp add: algebra_simps)
  then have "((k + 1) * 1800000) div 1800000 \<le> (e - s) div 1800000"
    by (rule zdiv_mono1) simp
  then have "k + 1 \<le> (e - s) div 1800000"
    by simp
  with assms(1) have "nat k \<in> set [0 ..< nat ((e - s) div 1800000)]"
    by simp
  then have "(\<lambda>j. freshSlot (s + int j * 1800000)) (nat k) \<in> set (tiling s e)"
    unfolding tiling_def set_map by (rule imageI)
  with assms(1) show ?thesis
    by simp
qed

lemma calculateAdjacentSlots_memberI:
  assumes "0 \<le> k" "s + k * 1800000 + 1800000 \<le> e"
    and "\<forall>ev\<in>set evs. \<not> overlapsEvent (freshSlot (s + k * 1800000)) ev"
    and "\<exists>ev\<in>set evs. adjacentToEvent tza (freshSlot (s + k * 1800000)) ev"
  shows "(s + k * 1800000, s + k * 1800000 + 1800000) \<in> set (calculateAdjacentSlots tza evs s e)"
proof -
  have "(s + k * 1800000, s + k * 1800000 + 1800000)
          = (\<lambda>sl. (slot_start sl, slot_end sl)) (freshSlot (s + k * 1800000))"
    by (simp add: freshSlot_def)
  moreover have "freshSlot (s + k * 1800000)
      \<in> set (filter (\<lambda>sl. (\<forall>ev\<in>set evs. \<not> overlapsEvent sl ev) \<and> (\<exists>ev\<in>set evs. adjacentToEvent tza sl ev))
               (tiling s e))"
    using tiling_memberI [OF assms(1,2)] assms(3,4) by simp
  ultimately show ?thesis
    unfolding calculateAdjacentSlots_tiling set_map by (simp only: image_eqI)
qed

lemma MakeDay_examples:
  "MakeDay 2025 2 8 = 20155" "MakeDay 2025 2 14 = 20161" "MakeDay 2025 10 1 = 20393"
  "MakeDay 2025 10 7 = 20399" "MakeDay 2025 6 9 = 20278" "MakeDay 2025 0 8 = 20096"
  "MakeDay 2025 2 9 = 20156" "MakeDay 2025 10 2 = 20394" "MakeDay 2025 0 11 = 20099"
  by (simp_all add: MakeDay_def Let_def DayFromYear_def DayWithinYear_def InLeapYear_def)

text \<open>
  For a date of a year from 100 on, with \<open>m\<close> the second Sunday of March and \<open>n\<close> the
  first Sunday of November of that year (as day numbers): \<open>isEasternTimeDST\<close> holds
  exactly when the date is on or after \<open>m\<close> and before \<open>n\<close>, and the business window
  runs from 13:00 to 21:00 UTC of the date under daylight saving (UTC-4) and from 14:00
  to 22:00 UTC otherwise (UTC-5).
\<close>

lemma dst_window_full_year:
  "100 \<le> year \<Longrightarrow> isSecondSundayOfMarch year m \<Longrightarrow> isFirstSundayOfNovember year n \<Longrightarrow>
     (isEasternTimeDST year month day
        \<longleftrightarrow> m \<le> MakeDay year (month - 1) day \<and> MakeDay year (month - 1) day < n)
     \<and> businessWindow year month day =
         (if isEasternTimeDST year month day
          then (parseDateAt year month day 13, parseDateAt year month day 21)
          else (parseDateAt year month day 14, parseDateAt year month day 22))"
  using isEasternTimeDST_days [of year m n month day]
  by (simp add: businessWindow_def DateUTC_full_year parseDateAt_eq)

text \<open>
  2025: daylight saving from 9 March to 2 November. 9 July is inside it and its window
  starts at 13:00 UTC; 8 January is outside and its window starts at 14:00 UTC.
\<close>

lemma dst_window_full_year_example:
  "(100::int) \<le> 2025 \<and> isSecondSundayOfMarch 2025 20156 \<and> isFirstSundayOfNovember 2025 20394
   \<and> isEasternTimeDST 2025 7 9
   \<and> businessWindow 2025 7 9 = (1752066000000, 1752094800000)
   \<and> \<not> isEasternTimeDST 2025 1 8
   \<and> businessWindow 2025 1 8 = (1736344800000, 1736373600000)"
proof -
  have m: "isSecondSundayOfMarch 2025 20156"
    by (simp add: isSecondSundayOfMarch_def MakeDay_examples WeekDay_midnight)
  have n: "isFirstSundayOfNovember 2025 20394"
    by (simp add: isFirstSundayOfNovember_def MakeDay_examples WeekDay_midnight)
  have y: "(100::int) \<le> 2025"
    by simp
  show ?thesis
    using dst_window_full_year [OF y m n, of 7 9] dst_window_full_year [OF y m n, of 1 8] m n
    by (simp add: MakeDay_examples parseDateAt_eq)
qed

lemma MakeDay_year_99:
  "MakeDay 99 2 8 = - 683302" "MakeDay 99 2 14 = - 683296" "MakeDay 99 10 1 = - 683064"
  "MakeDay 99 10 7 = - 683058" "MakeDay 99 6 1 = - 683187"
  "MakeDay 1999 2 1 = 10651" "MakeDay 1999 10 1 = 10896" "MakeDay 1999 6 1 = 10773"
  by (simp_all add: MakeDay_def Let_def DayFromYear_def DayWithinYear_def InLeapYear_def)

section \<open>Properties of the slot engine and the handlers\<close>

text \<open>
  C1 (as amended). Take a slot as the tiling loop builds it and a timed event (not a
  synthetic all-day block). The round of the marking loop for that event sets the
  slot's \<open>isAdjacent\<close> flag exactly when the slot's end equals the event's start
  rounded down to the half hour of its hour (seconds zeroed; minutes from 30 on become
  30, else 0), or the slot's start equals the event's end rounded up (seconds zeroed;
  minutes above 30 roll to the next hour; minutes from 1 to 30 become 30; minute 0
  stays), and the slot does not overlap the event. The rounding is the one of
  \<open>roundDown30\<close> and \<open>roundUp30\<close> (lemmas \<open>roundDown30_spec\<close> and
  \<open>roundUp30_spec\<close>), in the host's local time.
\<close>

theorem adjacent_to_event:
  "map isAdjacent
     (markEvent tza [\<lparr>slot_start = a, slot_end = b, isOverlapping = False, isAdjacent = False\<rparr>]
        \<lparr>start_dateTime = Some es, end_dateTime = Some ee, isSyntheticAllDay = False\<rparr>)
     = [(b = specRoundDown tza es \<or> a = specRoundUp tza ee) \<and> \<not> (a < ee \<and> b > es)]"
  by (simp add: markEvent_def markSlot_def Let_def roundDown30_spec roundUp30_spec)

text \<open>
  The event 15:05 to 15:50 UTC of 2025-01-08 makes the slots 14:30 to 15:00 and 16:00 to
  16:30 adjacent.
\<close>

theorem adjacent_to_event_witness:
  "map isAdjacent
     (markEvent 0 [\<lparr>slot_start = 1736346600000, slot_end = 1736348400000,
                     isOverlapping = False, isAdjacent = False\<rparr>]
        \<lparr>start_dateTime = Some 1736348700000, end_dateTime = Some 1736351400000,
         isSyntheticAllDay = False\<rparr>) = [True]
   \<and> map isAdjacent
     (markEvent 0 [\<lparr>slot_start = 1736352000000, slot_end = 1736353800000,
                     isOverlapping = False, isAdjacent = False\<rparr>]
        \<lparr>start_dateTime = Some 1736348700000, end_dateTime = Some 1736351400000,
         isSyntheticAllDay = False\<rparr>) = [True]"
  using adjacent_to_event [of 0 1736346600000 1736348400000 1736348700000 1736351400000]
    adjacent_to_event [of 0 1736352000000 1736353800000 1736348700000 1736351400000]
  by (simp add: specRoundDown_def specRoundUp_def)

text \<open>
  C1 as stated fails: an event from 14:50:00 to 15:00:30 has its end rounded to 15:00:00,
  the start of the slot 15:00 to 15:30; the slot overlaps the event by thirty seconds,
  so the loop marks it overlapping and never adjacent.
\<close>

theorem adjacent_needs_no_overlap:
  "\<not> (map isAdjacent
        (markEvent 0 [\<lparr>slot_start = 1736348400000, slot_end = 1736350200000,
                        isOverlapping = False, isAdjacent = False\<rparr>]
           \<lparr>start_dateTime = Some 1736347800000, end_dateTime = Some 1736348430000,
            isSyntheticAllDay = False\<rparr>) = [True]
       \<longleftrightarrow> (1736350200000 = roundDown30 0 1736347800000 \<or> 1736348400000 = roundUp30 0 1736348430000))"
proof -
  have up: "roundUp30 0 1736348430000 = 1736348400000"
    by (simp add: roundUp30_spec specRoundUp_def)
  show ?thesis
    unfolding up by (simp add: markEvent_def markSlot_def Let_def)
qed

text \<open>
  C2. A round of the marking loop sets the \<open>isOverlapping\<close> flag of a slot not yet
  overlapping exactly when \<open>slot.start < event.end\<close> and \<open>slot.end > event.start\<close>;
  no slot returned by \<open>calculateAdjacentSlots\<close> overlaps any event of the list,
  whatever other event it is adjacent to; and after the whole marking loop the flag of
  a slot is set exactly when some event of the list overlaps it.
\<close>

theorem overlap_excludes:
  "map isOverlapping
     (markEvent tza [\<lparr>slot_start = a, slot_end = b, isOverlapping = False, isAdjacent = adj\<rparr>]
        \<lparr>start_dateTime = Some es, end_dateTime = Some ee, isSyntheticAllDay = syn\<rparr>)
     = [a < ee \<and> b > es]
   \<and> ((a', b') \<in> set (calculateAdjacentSlots tza evs s e) \<longrightarrow> ev \<in> set evs
        \<longrightarrow> start_dateTime ev = Some es' \<longrightarrow> end_dateTime ev = Some ee'
        \<longrightarrow> \<not> (a' < ee' \<and> b' > es'))
   \<and> map isOverlapping (foldl (markEvent tza) (buildSlots tza s e) evs)
        = map (\<lambda>sl. \<exists>ev\<in>set evs. overlapsEvent sl ev) (buildSlots tza s e)"
proof -
  have "map isOverlapping
     (markEvent tza [\<lparr>slot_start = a, slot_end = b, isOverlapping = False, isAdjacent = adj\<rparr>]
        \<lparr>start_dateTime = Some es, end_dateTime = Some ee, isSyntheticAllDay = syn\<rparr>)
     = [a < ee \<and> b > es]"
    by (simp add: markEvent_def markSlot_def Let_def)
  moreover have "\<not> (a' < ee' \<and> b' > es')"
    if "(a', b') \<in> set (calculateAdjacentSlots tza evs s e)" "ev \<in> set evs"
      "start_dateTime ev = Some es'" "end_dateTime ev = Some ee'"
  proof -
    from that(1) obtain sl where "\<forall>ev\<in>set evs. \<not> overlapsEvent sl ev"
      and "a' = slot_start sl" "b' = slot_end sl"
      by (auto simp: calculateAdjacentSlots_tiling)
    with that(2-4) show ?thesis
      by (auto simp: overlapsEvent_def)
  qed
  moreover have "map isOverlapping (foldl (markEvent tza) (buildSlots tza s e) evs)
        = map (\<lambda>sl. \<exists>ev\<in>set evs. overlapsEvent sl ev) (buildSlots tza s e)"
    unfolding foldl_markEvent buildSlots_tiling map_map comp_def
    by (rule map_cong [OF refl]) (use tiling_fresh in \<open>simp add: foldl_slotStep_overlapping\<close>)
  ultimately show ?thesis by blast
qed

text \<open>
  A slot ending where an event starts is not overlapping; the slot 14:00 to 14:30 is
  returned for an event 14:35 to 14:55 and does not overlap it.
\<close>

theorem overlap_excludes_witness:
  "map isOverlapping
     (markEvent 0 [\<lparr>slot_start = 1736346600000, slot_end = 1736348400000,
                     isOverlapping = False, isAdjacent = False\<rparr>]
        \<lparr>start_dateTime = Some 1736348400000, end_dateTime = Some 1736350200000,
         isSyntheticAllDay = False\<rparr>) = [False]
   \<and> (1736344800000, 1736346600000) \<in> set (calculateAdjacentSlots 0
        [\<lparr>start_dateTime = Some 1736346900000, end_dateTime = Some 1736348100000, isSyntheticAllDay = False\<rparr>]
        1736344800000 1736350800000)
   \<and> \<not> ((1736344800000::int) < 1736348100000 \<and> (1736346600000::int) > 1736346900000)"
  using overlap_excludes [of 0 1736346600000 1736348400000 False 1736348400000 1736350200000 False
      1736344800000 1736346600000
      "[\<lparr>start_dateTime = Some 1736346900000, end_dateTime = Some 1736348100000, isSyntheticAllDay = False\<rparr>]"
      1736344800000 1736350800000
      "\<lparr>start_dateTime = Some 1736346900000, end_dateTime = Some 1736348100000, isSyntheticAllDay = False\<rparr>"
      1736346900000 1736348100000]
  by (simp add: adjacent_example)

text \<open>
  C3. \<open>calculateAdjacentSlots\<close> returns, in the order of the tiling and as
  \<open>(start, end)\<close> pairs, exactly the generated slots that no event of the list
  overlaps and that pass the adjacency test of some event of the list which is not a
  synthetic all-day block; with no events the result is empty, whatever the window.
\<close>

theorem bookable_slots:
  "calculateAdjacentSlots tza evs s e =
     map (\<lambda>sl. (slot_start sl, slot_end sl))
       (filter (\<lambda>sl. (\<forall>ev\<in>set evs. \<not> overlapsEvent sl ev) \<and> (\<exists>ev\<in>set evs. adjacentToEvent tza sl ev))
          (buildSlots tza s e))
   \<and> calculateAdjacentSlots tza [] s e = []"
  by (simp add: calculateAdjacentSlots_tiling buildSlots_tiling)

text \<open>
  The window 14:00 to 15:40 with one event 14:35 to 14:55: the first and the third slot.
\<close>

theorem bookable_slots_witness:
  "calculateAdjacentSlots 0
     [\<lparr>start_dateTime = Some 1736346900000, end_dateTime = Some 1736348100000, isSyntheticAllDay = False\<rparr>]
     1736344800000 1736350800000
     = [(1736344800000, 1736346600000), (1736348400000, 1736350200000)]
   \<and> calculateAdjacentSlots 0 [] 1736344800000 1736350800000 = []"
  using bookable_slots [of 0
      "[\<lparr>start_dateTime = Some 1736346900000, end_dateTime = Some 1736348100000, isSyntheticAllDay = False\<rparr>]"
      1736344800000 1736350800000]
  by (simp add: buildSlots_tiling tiling_example freshSlot_def overlapsEvent_def
      adjacentToEvent_def rounding_example)

text \<open>
  C4. An all-day event whose range \<open>[start.date, end.date)\<close> holds the selected date
  becomes exactly one synthetic event over the whole business window, and one that does
  not hold it becomes nothing. The synthetic block marks every slot of the window
  overlapping and leaves every \<open>isAdjacent\<close> flag as it was; so with such an all-day
  event among the raw events, \<open>calculateAllSlots\<close> and \<open>calculateAdjacentSlots\<close>
  both return the empty list.
\<close>

theorem all_day_block:
  "(sd \<le> sel \<and> sel < ed \<longrightarrow>
      processRawEvent sel s e (AllDay sd ed)
        = [\<lparr>start_dateTime = Some s, end_dateTime = Some e, isSyntheticAllDay = True\<rparr>])
   \<and> (\<not> (sd \<le> sel \<and> sel < ed) \<longrightarrow> processRawEvent sel s e (AllDay sd ed) = [])
   \<and> (\<forall>sl \<in> set (markEvent tza (buildSlots tza s e)
                     \<lparr>start_dateTime = Some s, end_dateTime = Some e, isSyntheticAllDay = True\<rparr>).
        isOverlapping sl)
   \<and> map isAdjacent (markEvent tza slots
          \<lparr>start_dateTime = Some es, end_dateTime = Some ee, isSyntheticAllDay = True\<rparr>)
        = map isAdjacent slots
   \<and> (AllDay sd ed \<in> set rawEvents \<and> sd \<le> sel \<and> sel < ed \<longrightarrow>
        calculateAllSlots tza (processRawEvents sel s e rawEvents) s e = []
        \<and> calculateAdjacentSlots tza (processRawEvents sel s e rawEvents) s e = [])"
proof -
  have "\<forall>sl \<in> set (markEvent tza (buildSlots tza s e)
                     \<lparr>start_dateTime = Some s, end_dateTime = Some e, isSyntheticAllDay = True\<rparr>).
        isOverlapping sl"
    using block_overlaps_tiling [of _ s e]
    by (auto simp: markEvent_map buildSlots_tiling slotStep_overlapping)
  moreover
  have "map isAdjacent (markEvent tza slots
          \<lparr>start_dateTime = Some es, end_dateTime = Some ee, isSyntheticAllDay = True\<rparr>)
        = map isAdjacent slots"
    by (simp add: markEvent_def Let_def comp_def)
  moreover
  have "calculateAllSlots tza (processRawEvents sel s e rawEvents) s e = []
        \<and> calculateAdjacentSlots tza (processRawEvents sel s e rawEvents) s e = []"
    if "AllDay sd ed \<in> set rawEvents" "sd \<le> sel" "sel < ed"
    using block_empties [OF block_in_processed [OF that]] by simp
  ultimately show ?thesis
    by (simp add: processRawEvent_def)
qed

text \<open>
  Selected date 2025-01-08: an all-day event of that day blocks the window, one of the
  next day does not.
\<close>

theorem all_day_block_witness:
  "(1736294400000::int) \<le> 1736294400000 \<and> (1736294400000::int) < 1736380800000
   \<and> processRawEvent 1736294400000 1736344800000 1736350800000 (AllDay 1736294400000 1736380800000)
        = [\<lparr>start_dateTime = Some 1736344800000, end_dateTime = Some 1736350800000,
            isSyntheticAllDay = True\<rparr>]
   \<and> processRawEvent 1736294400000 1736344800000 1736350800000 (AllDay 1736380800000 1736467200000) = []
   \<and> map isOverlapping (markEvent 0 (buildSlots 0 1736344800000 1736350800000)
          \<lparr>start_dateTime = Some 1736344800000, end_dateTime = Some 1736350800000,
           isSyntheticAllDay = True\<rparr>) = [True, True, True]
   \<and> calculateAllSlots 0 (processRawEvents 1736294400000 1736344800000 1736350800000
          [Timed 1736346900000 1736348100000, AllDay 1736294400000 1736380800000])
        1736344800000 1736350800000 = []
   \<and> calculateAdjacentSlots 0 (processRawEvents 1736294400000 1736344800000 1736350800000
          [Timed 1736346900000 1736348100000, AllDay 1736294400000 1736380800000])
        1736344800000 1736350800000 = []"
  using all_day_block [of 1736294400000 1736294400000 1736380800000 1736344800000 1736350800000 0
      "[]" 0 0 "[Timed 1736346900000 1736348100000, AllDay 1736294400000 1736380800000]"]
    all_day_block [of 1736380800000 1736294400000 1736467200000 1736344800000 1736350800000 0
      "[]" 0 0 "[]"]
  by (simp add: buildSlots_tiling tiling_example freshSlot_def markEvent_def markSlot_def Let_def)

text \<open>
  C5. For a window with \<open>start < end\<close> the tiling loop yields the slots
  \<open>[start + 30k min, start + 30(k + 1) min)\<close> for \<open>k\<close> below
  \<open>floor ((end - start) / 30 min)\<close>, in this order and no others: their number is
  that quotient, none ends after the window's end, and a remainder shorter than a slot
  is dropped.
\<close>

theorem tiling_count:
  "s < e \<Longrightarrow>
     buildSlots tza s e =
       map (\<lambda>k. \<lparr>slot_start = s + int k * 1800000, slot_end = s + int k * 1800000 + 1800000,
                  isOverlapping = False, isAdjacent = False\<rparr>)
         [0 ..< nat ((e - s) div 1800000)]
     \<and> int (length (buildSlots tza s e)) = (e - s) div 1800000
     \<and> (\<forall>sl \<in> set (buildSlots tza s e). slot_end sl \<le> e)"
proof -
  assume "s < e"
  then have "0 \<le> (e - s) div 1800000"
    by (simp add: pos_imp_zdiv_nonneg_iff)
  then have "int (length (buildSlots tza s e)) = (e - s) div 1800000"
    by (simp add: buildSlots_tiling tiling_def)
  moreover have "\<forall>sl \<in> set (buildSlots tza s e). slot_end sl \<le> e"
    using tiling_member unfolding buildSlots_tiling by blast
  moreover have "buildSlots tza s e =
       map (\<lambda>k. \<lparr>slot_start = s + int k * 1800000, slot_end = s + int k * 1800000 + 1800000,
                  isOverlapping = False, isAdjacent = False\<rparr>)
         [0 ..< nat ((e - s) div 1800000)]"
    by (simp add: buildSlots_tiling tiling_def freshSlot_def)
  ultimately show ?thesis by simp
qed

text \<open>A window of 100 minutes holds three slots; the last ten minutes are dropped.\<close>

theorem tiling_count_witness:
  "(1736344800000::int) < 1736350800000
   \<and> buildSlots 0 1736344800000 1736350800000 =
       [\<lparr>slot_start = 1736344800000, slot_end = 1736346600000, isOverlapping = False, isAdjacent = False\<rparr>,
        \<lparr>slot_start = 1736346600000, slot_end = 1736348400000, isOverlapping = False, isAdjacent = False\<rparr>,
        \<lparr>slot_start = 1736348400000, slot_end = 1736350200000, isOverlapping = False, isAdjacent = False\<rparr>]
   \<and> int (length (buildSlots 0 1736344800000 1736350800000)) = 3"
proof -
  have n: "nat ((1736350800000 - 1736344800000) div 1800000) = 3"
    by simp
  have u: "[0 ..< 3] = [0, 1, 2]"
    by (simp add: upt_rec)
  show ?thesis
    using tiling_count [of 1736344800000 1736350800000 0]
    unfolding n u by simp
qed

text \<open>
  C6. For a date of a year from 100 on the daylight-saving test and the window are as
  the claim says (lemma \<open>dst_window_full_year\<close>). For a year from 0 to 99 they are
  not: \<open>isEasternTimeDST\<close> parses the date string in its own year and builds the
  two transition Sundays with \<open>Date.UTC(year, ...)\<close>, which reads the year as
  1900 + year. 1 July 0099 (day -683187) lies between the second Sunday of March 0099
  (day -683302) and the first Sunday of November 0099 (day -683064), yet the test
  compares it with the Sundays of 1999 and answers no; the window then runs from 14:00
  to 22:00 UTC of 1 July 1999, not from 13:00 UTC of 1 July 0099.
\<close>

theorem dst_two_digit_year:
  "isSecondSundayOfMarch 99 (- 683302) \<and> isFirstSundayOfNovember 99 (- 683064)
   \<and> MakeDay 99 (7 - 1) 1 = - 683187
   \<and> - 683302 \<le> (- 683187 :: int) \<and> (- 683187 :: int) < - 683064
   \<and> \<not> isEasternTimeDST 99 7 1
   \<and> businessWindow 99 7 1 = (930837600000, 930866400000)
   \<and> parseDateAt 99 7 1 13 = - 59027310000000"
proof -
  have m: "isSecondSundayOfMarch 99 (- 683302)"
    by (simp add: isSecondSundayOfMarch_def MakeDay_year_99 WeekDay_midnight)
  have n: "isFirstSundayOfNovember 99 (- 683064)"
    by (simp add: isFirstSundayOfNovember_def MakeDay_year_99 WeekDay_midnight)
  have march: "DateUTC 99 2 1 0 = 920246400000"
    by (simp add: DateUTC_def MakeDate_def MakeTime_def MakeDay_year_99)
  have november: "DateUTC 99 10 1 0 = 941414400000"
    by (simp add: DateUTC_def MakeDate_def MakeTime_def MakeDay_year_99)
  have noon: "parseDateAt 99 7 1 12 = - 59027313600000"
    by (simp add: parseDateAt_eq MakeDay_year_99)
  have dst: "\<not> isEasternTimeDST 99 7 1"
    by (simp add: isEasternTimeDST_def Let_def march november noon addUTCDate_def)
  have window: "businessWindow 99 7 1 = (930837600000, 930866400000)"
    by (simp add: businessWindow_def dst DateUTC_def MakeDate_def MakeTime_def MakeDay_year_99)
  have start: "parseDateAt 99 7 1 13 = - 59027310000000"
    by (simp add: parseDateAt_eq MakeDay_year_99)
  from m n dst window start show ?thesis
    by (simp add: MakeDay_year_99)
qed

text \<open>
  C7. \<open>/api/available-slots\<close> takes the weekday with \<open>getUTCDay\<close> (lemma
  \<open>availableSlots_weekend\<close>: a Saturday or Sunday gives the empty list, whatever the
  calendar holds). \<open>/api/month-availability\<close> takes it with \<open>getDay\<close>, on the host's
  clock: on a host five hours west of Greenwich, Saturday 2025-01-11 counts as a Friday,
  its events are evaluated and its entry is \<open>True\<close>; on a host at UTC the entry is
  \<open>False\<close>.
\<close>

theorem month_weekend_follows_host_clock:
  "getUTCDay (DateUTC 2025 0 11 0) = 6
   \<and> monthDayAvailability (- 18000000) [Timed 1736607600000 1736611200000] 2025 0 11 = True
   \<and> monthDayAvailability 0 [Timed 1736607600000 1736611200000] 2025 0 11 = False"
proof -
  have d: "DateUTC 2025 0 11 h = 1736553600000 + h * 3600000" for h
    by (simp add: DateUTC_full_year MakeDay_examples)
  have sat: "getUTCDay 1736553600000 = 6" "getDay 0 1736553600000 = 6" "getDay (- 18000000) 1736553600000 = 5"
    by (simp_all add: getUTCDay_def getDay_def WeekDay_def Day_def LocalTime_def)
  have rd: "roundDown30 (- 18000000) 1736607600000 = 1736607600000"
    by (simp add: roundDown30_spec specRoundDown_def)
  have "(1736604000000 + 1 * 1800000, 1736604000000 + 1 * 1800000 + 1800000)
          \<in> set (calculateAdjacentSlots (- 18000000)
          [\<lparr>start_dateTime = Some 1736607600000, end_dateTime = Some 1736611200000, isSyntheticAllDay = False\<rparr>]
          1736604000000 1736632800000)"
    by (rule calculateAdjacentSlots_memberI)
       (simp_all add: freshSlot_def overlapsEvent_def adjacentToEvent_def rd)
  then have "length (calculateAdjacentSlots (- 18000000)
          [\<lparr>start_dateTime = Some 1736607600000, end_dateTime = Some 1736611200000, isSyntheticAllDay = False\<rparr>]
          1736604000000 1736632800000) > 0"
    by (simp only: length_greater_0_conv) auto
  then show ?thesis
    by (simp add: monthDayAvailability_def Let_def d sat timedEvent_def)
qed

text \<open>
  C8. \<open>/api/book\<close> tests the minutes of the start at hour 22 UTC, and not those of the
  end: a booking from 21:30 to 22:30 UTC on Wednesday 2025-01-08 (16:30 to 17:30 Eastern)
  is inserted, though the business window of that day ends at 22:00 UTC.
\<close>

theorem book_accepts_end_after_five:
  "book 0 \<lparr>startTime = Some 1736371800000, endTime = Some 1736375400000,
            name = ''Ada'', email = ''ada@example.org''\<rparr>
     = Inserted 1736371800000 1736375400000
   \<and> businessWindow 2025 1 8 = (1736344800000, 1736373600000)
   \<and> (1736373600000::int) < 1736375400000"
proof -
  have "\<not> isEasternTimeDST 2025 1 8"
    by (simp add: isEasternTimeDST_def parseDateAt_eq DateUTC_full_year MakeDay_examples
        MakeDay_def DayFromYear_def DayWithinYear_def InLeapYear_def Let_def getUTCDay_def WeekDay_def
        Day_def addUTCDate_def)
  then have "businessWindow 2025 1 8 = (1736344800000, 1736373600000)"
    by (simp add: businessWindow_def DateUTC_full_year MakeDay_examples)
  moreover have "book 0 \<lparr>startTime = Some 1736371800000, endTime = Some 1736375400000,
            name = ''Ada'', email = ''ada@example.org''\<rparr>
     = Inserted 1736371800000 1736375400000"
    by (simp add: book_def Let_def getDay_def WeekDay_def Day_def LocalTime_def getUTCHours_def
        getUTCMinutes_def HourFromTime_def MinFromTime_def)
  ultimately show ?thesis by simp
qed

text \<open>
  C9. Two event lists that are permutations of each other give the same result of
  \<open>calculateAdjacentSlots\<close>, for every window.
\<close>

theorem event_order_irrelevant:
  "mset evs = mset evs' \<Longrightarrow>
     calculateAdjacentSlots tza evs s e = calculateAdjacentSlots tza evs' s e"
proof -
  assume "mset evs = mset evs'"
  then have "set evs = set evs'"
    by (rule mset_eq_setD)
  then show ?thesis
    by (simp add: calculateAdjacentSlots_tiling)
qed

text \<open>
  Two events in either order: the slot 14:30 to 15:00 is adjacent to the one and
  overlapped by the other, and is left out both times.
\<close>

theorem event_order_irrelevant_witness:
  "calculateAdjacentSlots 0
     [\<lparr>start_dateTime = Some 1736346900000, end_dateTime = Some 1736348100000, isSyntheticAllDay = False\<rparr>,
      \<lparr>start_dateTime = Some 1736345100000, end_dateTime = Some 1736345400000, isSyntheticAllDay = False\<rparr>]
     1736344800000 1736350800000
   = calculateAdjacentSlots 0
     [\<lparr>start_dateTime = Some 1736345100000, end_dateTime = Some 1736345400000, isSyntheticAllDay = False\<rparr>,
      \<lparr>start_dateTime = Some 1736346900000, end_dateTime = Some 1736348100000, isSyntheticAllDay = False\<rparr>]
     1736344800000 1736350800000"
  using event_order_irrelevant [of
      "[\<lparr>start_dateTime = Some 1736346900000, end_dateTime = Some 1736348100000, isSyntheticAllDay = False\<rparr>,
        \<lparr>start_dateTime = Some 1736345100000, end_dateTime = Some 1736345400000, isSyntheticAllDay = False\<rparr>]"
      "[\<lparr>start_dateTime = Some 1736345100000, end_dateTime = Some 1736345400000, isSyntheticAllDay = False\<rparr>,
        \<lparr>start_dateTime = Some 1736346900000, end_dateTime = Some 1736348100000, isSyntheticAllDay = False\<rparr>]"
      0 1736344800000 1736350800000]
  by simp

text \<open>
  C10. Every slot returned by \<open>calculateAdjacentSlots\<close> or \<open>calculateAllSlots\<close> lasts
  30 minutes, starts a whole number of half hours after the window's start and lies
  inside the window; and each result list is strictly increasing by start, each slot
  ending no later than the next one starts.
\<close>

theorem slots_well_formed:
  "(\<forall>p \<in> set (calculateAdjacentSlots tza evs s e) \<union> set (calculateAllSlots tza evs s e).
      snd p = fst p + 1800000 \<and> (\<exists>k::nat. fst p = s + int k * 1800000) \<and> s \<le> fst p \<and> snd p \<le> e)
   \<and> sorted_wrt (\<lambda>p q. snd p \<le> fst q \<and> fst p < fst q) (calculateAdjacentSlots tza evs s e)
   \<and> sorted_wrt (\<lambda>p q. snd p \<le> fst q \<and> fst p < fst q) (calculateAllSlots tza evs s e)"
proof -
  have "\<forall>p \<in> set (calculateAdjacentSlots tza evs s e) \<union> set (calculateAllSlots tza evs s e).
      snd p = fst p + 1800000 \<and> (\<exists>k::nat. fst p = s + int k * 1800000) \<and> s \<le> fst p \<and> snd p \<le> e"
    unfolding calculateAdjacentSlots_tiling calculateAllSlots_tiling
    using tiling_pair_member by blast
  moreover
  have "sorted_wrt (\<lambda>p q. snd p \<le> fst q \<and> fst p < fst q) (calculateAdjacentSlots tza evs s e)"
    unfolding calculateAdjacentSlots_tiling by (rule tiling_sorted)
  moreover
  have "sorted_wrt (\<lambda>p q. snd p \<le> fst q \<and> fst p < fst q) (calculateAllSlots tza evs s e)"
    unfolding calculateAllSlots_tiling by (rule tiling_sorted)
  ultimately show ?thesis by blast
qed

text \<open>The third slot of the window 14:00 to 15:40, returned for an event 14:35 to 14:55.\<close>

theorem slots_well_formed_witness:
  "(1736348400000, 1736350200000) \<in> set (calculateAdjacentSlots 0
        [\<lparr>start_dateTime = Some 1736346900000, end_dateTime = Some 1736348100000, isSyntheticAllDay = False\<rparr>]
        1736344800000 1736350800000)
   \<and> (1736350200000::int) = 1736348400000 + 1800000
   \<and> (\<exists>k::nat. (1736348400000::int) = 1736344800000 + int k * 1800000)
   \<and> (1736344800000::int) \<le> 1736348400000 \<and> (1736350200000::int) \<le> 1736350800000
   \<and> sorted_wrt (\<lambda>p q. snd p \<le> fst q \<and> fst p < fst q)
        [(1736344800000::int, 1736346600000::int), (1736348400000, 1736350200000)]"
  using slots_well_formed [of 0
      "[\<lparr>start_dateTime = Some 1736346900000, end_dateTime = Some 1736348100000, isSyntheticAllDay = False\<rparr>]"
      1736344800000 1736350800000]
  by (simp add: adjacent_example all_example)

end
